theory Spec2Isabelle
  imports Complex_Main
begin

section \<open>The fragment stage: chroma-key removal\<close>

text \<open>
  The GLSL vector types used by the fragment shader of \<^verbatim>\<open>fragmentShaderSource\<close>.
  Component order is the GLSL one: \<^verbatim>\<open>x y\<close> for texture coordinates, \<^verbatim>\<open>r g b\<close> and
  \<^verbatim>\<open>r g b a\<close> for colours. A component is a \<^typ>\<open>real\<close>. The definitions of this
  section read the shader over the reals, without rounding; the next section runs
  the same shader on the floating-point arithmetic of the GPU.
\<close>

datatype vec2 = Vec2 real real

datatype vec3 = Vec3 real real real

datatype vec4 = Vec4 real real real real

text \<open>A bound texture, as the sampler sees it: a colour for every texture coordinate.\<close>

type_synonym sampler2D = "vec2 \<Rightarrow> vec4"

definition texture2D :: "sampler2D \<Rightarrow> vec2 \<Rightarrow> vec4" where
  "texture2D u_image v_texCoord = u_image v_texCoord"

text \<open>The swizzle \<^verbatim>\<open>.rgb\<close> and the alpha component \<^verbatim>\<open>.a\<close>.\<close>

fun rgb :: "vec4 \<Rightarrow> vec3" where
  "rgb (Vec4 r g b a) = Vec3 r g b"

fun alpha :: "vec4 \<Rightarrow> real" where
  "alpha (Vec4 r g b a) = a"

text \<open>Component-wise subtraction of \<^verbatim>\<open>vec3\<close> values and the built-in \<^verbatim>\<open>length\<close>.\<close>

fun vec3_sub :: "vec3 \<Rightarrow> vec3 \<Rightarrow> vec3" where
  "vec3_sub (Vec3 x y z) (Vec3 x' y' z') = Vec3 (x - x') (y - y') (z - z')"

fun length_vec3 :: "vec3 \<Rightarrow> real" where
  "length_vec3 (Vec3 x y z) = sqrt (x * x + y * y + z * z)"

text \<open>The constructor \<^verbatim>\<open>vec4(s)\<close> with one scalar argument fills every component.\<close>

definition vec4_splat :: "real \<Rightarrow> vec4" where
  "vec4_splat s = Vec4 s s s s"

text \<open>
  \<^verbatim>\<open>main\<close> of the fragment shader in \<^verbatim>\<open>src/App.tsx\<close> (the if/else formulation).
  The result is the value written to \<^verbatim>\<open>gl_FragColor\<close>.
\<close>

definition fragment_main :: "sampler2D \<Rightarrow> vec2 \<Rightarrow> vec3 \<Rightarrow> real \<Rightarrow> vec4" where
  "fragment_main u_image v_texCoord u_keyColor u_threshold =
     (let color = texture2D u_image v_texCoord;
          diff = length_vec3 (vec3_sub (rgb color) u_keyColor)
      in if diff < u_threshold then Vec4 0.0 0.0 0.0 0.0 else color)"

text \<open>
  \<^verbatim>\<open>main\<close> of the fragment shader in the two later evolutions of the component
  (the ternary formulation with \<^verbatim>\<open>vec4(0.0)\<close>).
\<close>

definition fragment_main_ternary :: "sampler2D \<Rightarrow> vec2 \<Rightarrow> vec3 \<Rightarrow> real \<Rightarrow> vec4" where
  "fragment_main_ternary u_image v_texCoord u_keyColor u_threshold =
     (let color = texture2D u_image v_texCoord;
          diff = length_vec3 (vec3_sub (rgb color) u_keyColor)
      in (if diff < u_threshold then vec4_splat 0.0 else color))"

text \<open>
  The uniform values that \<^verbatim>\<open>applyChromaKey\<close> binds before every draw:
  \<^verbatim>\<open>gl.uniform3f(keyColorLocation, 3 / 255, 255 / 255, 156 / 255)\<close> and
  \<^verbatim>\<open>gl.uniform1f(thresholdLocation, 0.3)\<close>.
\<close>

definition keyColor :: vec3 where
  "keyColor = Vec3 (3 / 255) (255 / 255) (156 / 255)"

definition threshold :: real where
  "threshold = 0.3"



section \<open>The arithmetic of the fragment stage\<close>






text \<open>
  IEEE 754 single precision, which WebGL implementations on desktop GPUs use for
  \<^verbatim>\<open>mediump\<close>: every operation gives the exact result rounded to 24 significant bits,
  to the nearest representable value and to the even one at a tie. Overflow and
  underflow are left out (the exponent is unbounded); they do not occur at the
  values evaluated below. The length is the square root of the sum of the squares,
  accumulated from the first component on.
\<close>

definition round_even :: "real \<Rightarrow> int" where
  "round_even a =
     (let f = \<lfloor>a\<rfloor>; r = a - of_int f
      in if r < 1 / 2 then f else if 1 / 2 < r then f + 1 else if even f then f else f + 1)"

definition round32 :: "real \<Rightarrow> real" where
  "round32 x =
     (if x = 0 then 0
      else (let u = 2 powr (of_int \<lfloor>log 2 \<bar>x\<bar>\<rfloor> - 23)
            in sgn x * of_int (round_even (\<bar>x\<bar> / u)) * u))"




section \<open>The compositing view \<^verbatim>\<open>Video\<close>\<close>

subsection \<open>The browser objects the component talks to\<close>

text \<open>
  Timestamps and the other JavaScript numbers of the render loop are idealised as
  \<^typ>\<open>real\<close>. Handles of GPU objects are opaque numbers; \<^verbatim>\<open>null\<close> is \<^const>\<open>None\<close>.
\<close>

type_synonym handle = nat

text \<open>
  The state of the \<^verbatim>\<open>HTMLVideoElement\<close> at the moment an event is handled: its
  \<^verbatim>\<open>readyState\<close> (0 to 4), the pixel size of the current frame and the frame itself,
  which is opaque to the component.
\<close>

record 'img video =
  readyState :: nat
  videoWidth :: nat
  videoHeight :: nat
  currentFrame :: 'img

definition HAVE_ENOUGH_DATA :: nat where
  "HAVE_ENOUGH_DATA = 4"

text \<open>
  What a \<^verbatim>\<open>WebGLRenderingContext\<close> answers when \<^verbatim>\<open>initWebGL\<close> creates objects and
  looks locations up.
\<close>

record webgl =
  newProgram :: handle
  newTexture :: "handle option"
  uniformLocation :: "string \<Rightarrow> handle option"

datatype shader_type = VERTEX_SHADER | FRAGMENT_SHADER

datatype buffer = PositionBuffer | TexCoordBuffer

datatype tex_param = TEXTURE_WRAP_S | TEXTURE_WRAP_T | TEXTURE_MIN_FILTER | TEXTURE_MAG_FILTER

datatype tex_value = CLAMP_TO_EDGE | LINEAR

text \<open>The calls the component issues on the context, recorded in the order issued.\<close>

datatype 'img gl_call =
    CreateShader shader_type
  | ShaderSource shader_type
  | CompileShader shader_type
  | CreateProgram
  | AttachShader shader_type
  | LinkProgram
  | UseProgram
  | CreateBuffer buffer
  | BindBuffer buffer
  | BufferData "real list"
  | GetAttribLocation string
  | EnableVertexAttribArray string
  | VertexAttribPointer string nat
  | GetUniformLocation string
  | CreateTexture
  | BindTexture "handle option"
  | TexParameteri tex_param tex_value
  | Viewport nat nat nat nat
  | TexImage2D 'img
  | Uniform1i "handle option" int
  | Uniform3f "handle option" real real real
  | Uniform1f "handle option" real
  | DrawArrays nat nat
  | DeleteProgram handle
  | DeleteTexture handle

text \<open>The object returned by \<^verbatim>\<open>initWebGL\<close>.\<close>

record resource_context =
  program :: handle
  texture :: "handle option"
  imageLocation :: "handle option"
  keyColorLocation :: "handle option"
  thresholdLocation :: "handle option"

text \<open>
  The constants captured by one run of the render effect: \<^verbatim>\<open>gl = glRef.current\<close> and
  the destructured \<^verbatim>\<open>webGLContext\<close>. Both \<^verbatim>\<open>applyChromaKey\<close> and the cleanup function
  returned by the effect close over them.
\<close>

record closure =
  c_gl :: "webgl option"
  c_ctx :: resource_context

text \<open>
  The state of one mounted instance of \<^verbatim>\<open>Video\<close> together with the parts of the
  browser it changes:
  \<^item> \<^verbatim>\<open>videoRef.current\<close> is non-null or not, and \<^verbatim>\<open>canvas.getContext("webgl", ...)\<close>
    answers a context or \<^verbatim>\<open>null\<close>; both are fixed for the instance;
  \<^item> the hook state: \<^verbatim>\<open>isVideoReady\<close>, the memoised \<^verbatim>\<open>webGLContext\<close> with the
    dependency \<^verbatim>\<open>canvasRef.current\<close> it was computed for (\<open>memoDep\<close> is true when that
    was the canvas element, false when it was \<^verbatim>\<open>null\<close>), \<^verbatim>\<open>glRef.current\<close>, the
    dependencies of the last run of the render effect and the cleanup it returned;
  \<^item> whether \<^verbatim>\<open>checkVideoReady\<close> is registered for \<^verbatim>\<open>canplay\<close>;
  \<^item> the variables \<^verbatim>\<open>animationFrameId\<close> and \<^verbatim>\<open>lastFrameTime\<close> of the render effect;
  \<^item> the host scheduler: the next request id and the callbacks waiting for the next
    display refresh, each \<^verbatim>\<open>applyChromaKey\<close> of some closure;
  \<^item> the canvas size and the calls issued on the WebGL context.
\<close>

record 'img view =
  mounted :: bool
  videoRef :: bool
  getContext :: "webgl option"
  isVideoReady :: bool
  canplayListener :: bool
  memoDep :: bool
  webGLContext :: "resource_context option"
  glRef :: "webgl option"
  effectDeps :: "bool \<times> resource_context option"
  cleanupFn :: "closure option"
  animationFrameId :: "nat option"
  lastFrameTime :: real
  rafNext :: nat
  rafPending :: "(nat \<times> closure) list"
  canvasWidth :: nat
  canvasHeight :: nat
  glCalls :: "'img gl_call list"

definition gl_do :: "'img gl_call list \<Rightarrow> 'img view \<Rightarrow> 'img view" where
  "gl_do calls s = s\<lparr>glCalls := glCalls s @ calls\<rparr>"

subsection \<open>\<^verbatim>\<open>initWebGL\<close> and the memoised context\<close>

definition initWebGL_calls :: "webgl \<Rightarrow> 'img gl_call list" where
  "initWebGL_calls gl =
     [CreateShader VERTEX_SHADER, ShaderSource VERTEX_SHADER, CompileShader VERTEX_SHADER,
      CreateShader FRAGMENT_SHADER, ShaderSource FRAGMENT_SHADER, CompileShader FRAGMENT_SHADER,
      CreateProgram, AttachShader VERTEX_SHADER, AttachShader FRAGMENT_SHADER,
      LinkProgram, UseProgram,
      CreateBuffer PositionBuffer, BindBuffer PositionBuffer,
      BufferData [-1, -1, 1, -1, -1, 1, 1, 1],
      CreateBuffer TexCoordBuffer, BindBuffer TexCoordBuffer,
      BufferData [0, 0, 1, 0, 0, 1, 1, 1],
      GetAttribLocation ''a_position'', GetAttribLocation ''a_texCoord'',
      EnableVertexAttribArray ''a_position'', BindBuffer PositionBuffer,
      VertexAttribPointer ''a_position'' 2,
      EnableVertexAttribArray ''a_texCoord'', BindBuffer TexCoordBuffer,
      VertexAttribPointer ''a_texCoord'' 2,
      GetUniformLocation ''u_image'', GetUniformLocation ''u_keyColor'',
      GetUniformLocation ''u_threshold'',
      CreateTexture, BindTexture (newTexture gl),
      TexParameteri TEXTURE_WRAP_S CLAMP_TO_EDGE, TexParameteri TEXTURE_WRAP_T CLAMP_TO_EDGE,
      TexParameteri TEXTURE_MIN_FILTER LINEAR, TexParameteri TEXTURE_MAG_FILTER LINEAR]"

definition initWebGL :: "webgl \<Rightarrow> 'img view \<Rightarrow> resource_context \<times> 'img view" where
  "initWebGL gl s =
     (\<lparr>program = newProgram gl,
       texture = newTexture gl,
       imageLocation = uniformLocation gl ''u_image'',
       keyColorLocation = uniformLocation gl ''u_keyColor'',
       thresholdLocation = uniformLocation gl ''u_threshold''\<rparr>,
      gl_do (initWebGL_calls gl) s)"

text \<open>
  \<^verbatim>\<open>useMemo(..., [canvasRef.current])\<close> on a render after the first commit, when
  \<^verbatim>\<open>canvasRef.current\<close> is the canvas element: the cached value is kept when it was
  computed for the canvas, and computed anew otherwise. A surface that yields no
  context gives \<^verbatim>\<open>null\<close>.
\<close>

definition useMemo_webGLContext :: "'img view \<Rightarrow> 'img view" where
  "useMemo_webGLContext s =
     (if memoDep s then s
      else (case getContext s of
              Some gl \<Rightarrow>
                (let (ctx, s') = initWebGL gl (s\<lparr>glRef := Some gl\<rparr>)
                 in s'\<lparr>memoDep := True, webGLContext := Some ctx\<rparr>)
            | None \<Rightarrow> s\<lparr>memoDep := True, webGLContext := None\<rparr>))"

subsection \<open>The host scheduler\<close>

text \<open>
  \<^verbatim>\<open>requestAnimationFrame(applyChromaKey)\<close> inside the closure \<open>c\<close>: the callback is
  queued for the next display refresh under a fresh id, which the effect stores in
  \<^verbatim>\<open>animationFrameId\<close>. \<^verbatim>\<open>cancelAnimationFrame(id)\<close> removes the callback queued under
  \<open>id\<close>, and does nothing for an id that is not queued or for \<^verbatim>\<open>undefined\<close>.
\<close>

definition requestAnimationFrame :: "closure \<Rightarrow> 'img view \<Rightarrow> 'img view" where
  "requestAnimationFrame c s =
     s\<lparr>animationFrameId := Some (rafNext s),
       rafPending := rafPending s @ [(rafNext s, c)],
       rafNext := Suc (rafNext s)\<rparr>"

definition cancelAnimationFrame :: "nat option \<Rightarrow> 'img view \<Rightarrow> 'img view" where
  "cancelAnimationFrame i s =
     s\<lparr>rafPending := filter (\<lambda>(j, c). Some j \<noteq> i) (rafPending s)\<rparr>"

subsection \<open>The render loop governor\<close>

definition targetFPS :: real where
  "targetFPS = 30"

definition frameInterval :: real where
  "frameInterval = 1000 / targetFPS"

text \<open>
  The body of the \<^verbatim>\<open>if\<close> in \<^verbatim>\<open>applyChromaKey\<close>: resize the canvas to the frame, set the
  viewport, upload the frame into the texture, bind the uniforms and draw the quad.
\<close>

definition upload_and_draw :: "closure \<Rightarrow> 'img video \<Rightarrow> 'img view \<Rightarrow> 'img view" where
  "upload_and_draw c v s =
     gl_do
       [Viewport 0 0 (videoWidth v) (videoHeight v),
        BindTexture (texture (c_ctx c)),
        TexImage2D (currentFrame v),
        Uniform1i (imageLocation (c_ctx c)) 0,
        Uniform3f (keyColorLocation (c_ctx c)) (3 / 255) (255 / 255) (156 / 255),
        Uniform1f (thresholdLocation (c_ctx c)) 0.3,
        DrawArrays 0 4]
       (s\<lparr>canvasWidth := videoWidth v, canvasHeight := videoHeight v\<rparr>)"

text \<open>
  \<^verbatim>\<open>applyChromaKey(currentTime)\<close> of the closure \<open>c\<close>, run while the video element is in
  state \<open>v\<close>. The canvas element is attached for as long as the component is mounted,
  so \<^verbatim>\<open>canvas\<close> is non-null in the guard.
\<close>

definition applyChromaKey :: "closure \<Rightarrow> real \<Rightarrow> 'img video \<Rightarrow> 'img view \<Rightarrow> 'img view" where
  "applyChromaKey c currentTime v s =
     (if currentTime - lastFrameTime s < frameInterval then requestAnimationFrame c s
      else
        (let s1 = s\<lparr>lastFrameTime := currentTime\<rparr>;
             s2 = (if videoRef s1 \<and> c_gl c \<noteq> None \<and> readyState v = HAVE_ENOUGH_DATA
                   then upload_and_draw c v s1 else s1)
         in requestAnimationFrame c s2))"

text \<open>
  The cleanup function returned by the render effect, closing over \<open>c\<close>: the handle
  by which the loop is cancelled and its GPU objects are released. The program is a
  non-null object by the assertion in \<^verbatim>\<open>initWebGL\<close>.
\<close>

definition cancel :: "closure \<Rightarrow> 'img view \<Rightarrow> 'img view" where
  "cancel c s =
     (let s1 = cancelAnimationFrame (animationFrameId s) s
      in (case (c_gl c, texture (c_ctx c)) of
            (Some gl, Some tex) \<Rightarrow> gl_do [DeleteProgram (program (c_ctx c)), DeleteTexture tex] s1
          | _ \<Rightarrow> s1))"

subsection \<open>The effects and the readiness gate\<close>

text \<open>
  The body of the render effect, run after a commit whose dependencies
  \<^verbatim>\<open>[isVideoReady, webGLContext]\<close> changed. It returns at the guard without a cleanup,
  or starts the loop with \<^verbatim>\<open>applyChromaKey(0)\<close> and returns the cleanup.
\<close>

definition renderEffect_body :: "'img video \<Rightarrow> 'img view \<Rightarrow> 'img view" where
  "renderEffect_body v s =
     (case webGLContext s of
        None \<Rightarrow> s\<lparr>cleanupFn := None\<rparr>
      | Some ctx \<Rightarrow>
          if \<not> isVideoReady s then s\<lparr>cleanupFn := None\<rparr>
          else
            (let c = \<lparr>c_gl = glRef s, c_ctx = ctx\<rparr>;
                 s1 = s\<lparr>animationFrameId := None, lastFrameTime := 0\<rparr>;
                 s2 = applyChromaKey c 0 v s1
             in s2\<lparr>cleanupFn := Some c\<rparr>))"

text \<open>
  The render effect after a re-render: nothing when the dependencies are those of
  its last run; otherwise the previous cleanup, if there is one, and then the body.
\<close>

definition renderEffect :: "'img video \<Rightarrow> 'img view \<Rightarrow> 'img view" where
  "renderEffect v s =
     (if effectDeps s = (isVideoReady s, webGLContext s) then s
      else
        (let s1 = (case cleanupFn s of Some c \<Rightarrow> cancel c s | None \<Rightarrow> s)
         in renderEffect_body v (s1\<lparr>effectDeps := (isVideoReady s, webGLContext s)\<rparr>)))"

text \<open>A re-render of the mounted component: the hooks in order, then the effects.\<close>

definition rerender :: "'img video \<Rightarrow> 'img view \<Rightarrow> 'img view" where
  "rerender v s = renderEffect v (useMemo_webGLContext s)"

text \<open>
  \<^verbatim>\<open>checkVideoReady\<close>, the \<^verbatim>\<open>canplay\<close> listener. \<^verbatim>\<open>setIsVideoReady(true)\<close> schedules a
  re-render when it changes the state, and none when the state is \<^verbatim>\<open>true\<close> already.
\<close>

definition checkVideoReady :: "'img video \<Rightarrow> 'img view \<Rightarrow> 'img view" where
  "checkVideoReady v s =
     (if readyState v \<ge> 2
      then (let s1 = s\<lparr>isVideoReady := True, canplayListener := False\<rparr>
            in if isVideoReady s then s1 else rerender v s1)
      else s)"

text \<open>
  The instance after its first render and commit. On the first render
  \<^verbatim>\<open>canvasRef.current\<close> is still \<^verbatim>\<open>null\<close>, so the memoised context is \<^verbatim>\<open>null\<close>; the
  readiness effect registers \<^verbatim>\<open>checkVideoReady\<close> when \<^verbatim>\<open>videoRef.current\<close> is non-null;
  the render effect returns at its guard, \<^verbatim>\<open>isVideoReady\<close> being \<^verbatim>\<open>false\<close>.
\<close>

definition mount :: "bool \<Rightarrow> webgl option \<Rightarrow> 'img view" where
  "mount has_video surface =
     \<lparr>mounted = True, videoRef = has_video, getContext = surface,
      isVideoReady = False, canplayListener = has_video,
      memoDep = False, webGLContext = None, glRef = None,
      effectDeps = (False, None), cleanupFn = None,
      animationFrameId = None, lastFrameTime = 0,
      rafNext = 0, rafPending = [],
      canvasWidth = 300, canvasHeight = 150, glCalls = []\<rparr>"

text \<open>
  Unmounting runs the cleanups of both effects once: the listener is removed and the
  cleanup of the render effect, if it returned one, is called.
\<close>

definition unmount :: "'img view \<Rightarrow> 'img view" where
  "unmount s =
     (let s1 = (case cleanupFn s of Some c \<Rightarrow> cancel c s | None \<Rightarrow> s)
      in s1\<lparr>mounted := False, canplayListener := False, cleanupFn := None\<rparr>)"

subsection \<open>Executions\<close>

text \<open>
  What can happen to an instance, each with the state of the video element at that
  moment: the video fires \<^verbatim>\<open>canplay\<close>; the parent re-renders the component; the host
  scheduler reaches a display refresh with the given timestamp; the component is
  unmounted.
\<close>

datatype 'img event =
    CanPlay "'img video"
  | Rerender "'img video"
  | AnimationFrame real "'img video"
  | Unmount

text \<open>A display refresh runs the callbacks that were queued before it, in order.\<close>

definition animationFrame :: "real \<Rightarrow> 'img video \<Rightarrow> 'img view \<Rightarrow> 'img view" where
  "animationFrame t v s =
     fold (\<lambda>(i, c). applyChromaKey c t v) (rafPending s) (s\<lparr>rafPending := []\<rparr>)"

fun step :: "'img view \<Rightarrow> 'img event \<Rightarrow> 'img view" where
  "step s (CanPlay v) = (if canplayListener s then checkVideoReady v s else s)"
| "step s (Rerender v) = (if mounted s then rerender v s else s)"
| "step s (AnimationFrame t v) = animationFrame t v s"
| "step s Unmount = (if mounted s then unmount s else s)"

fun run :: "'img view \<Rightarrow> 'img event list \<Rightarrow> 'img view" where
  "run s [] = s"
| "run s (e # es) = run (step s e) es"

text \<open>Observations on a state: the number of draw calls issued so far, and the
  image last uploaded into the frame texture.\<close>

fun is_draw :: "'img gl_call \<Rightarrow> bool" where
  "is_draw (DrawArrays first n) = True"
| "is_draw _ = False"

definition draw_count :: "'img view \<Rightarrow> nat" where
  "draw_count s = length (filter is_draw (glCalls s))"

fun uploaded :: "'img gl_call \<Rightarrow> 'img option" where
  "uploaded (TexImage2D img) = Some img"
| "uploaded _ = None"

definition frameTexture :: "'img view \<Rightarrow> 'img option" where
  "frameTexture s = (case List.map_filter uploaded (glCalls s) of [] \<Rightarrow> None | imgs \<Rightarrow> Some (last imgs))"

text \<open>
  An event draws when it raises the number of draw calls. \<open>draw_times\<close> lists the
  timestamps of the display refreshes of an execution that drew, and \<open>draws_at\<close> says
  whether the event at a position of an execution drew.
\<close>

definition drew :: "'img view \<Rightarrow> 'img event \<Rightarrow> bool" where
  "drew s e \<longleftrightarrow> draw_count s < draw_count (step s e)"

fun draw_times :: "'img view \<Rightarrow> 'img event list \<Rightarrow> real list" where
  "draw_times s [] = []"
| "draw_times s (AnimationFrame t v # es) =
     (if drew s (AnimationFrame t v) then [t] else []) @
     draw_times (step s (AnimationFrame t v)) es"
| "draw_times s (e # es) = draw_times (step s e) es"

definition draws_at :: "'img view \<Rightarrow> 'img event list \<Rightarrow> nat \<Rightarrow> bool" where
  "draws_at s es i \<longleftrightarrow> i < length es \<and> drew (run s (take i es)) (es ! i)"

fun tick_time :: "'img event \<Rightarrow> real option" where
  "tick_time (AnimationFrame t v) = Some t"
| "tick_time _ = None"

text \<open>Two positions of an execution hold display refreshes less than \<open>d\<close> apart.\<close>

definition ticks_within :: "real \<Rightarrow> 'img event list \<Rightarrow> nat \<Rightarrow> nat \<Rightarrow> bool" where
  "ticks_within d es i j \<longleftrightarrow>
     i < length es \<and> j < length es \<and>
     (case (tick_time (es ! i), tick_time (es ! j)) of
        (Some t, Some t') \<Rightarrow> \<bar>t - t'\<bar> < d
      | _ \<Rightarrow> False)"

text \<open>The number of steps of an execution at which \<^verbatim>\<open>isVideoReady\<close> turns true.\<close>

fun ready_transitions :: "'img view \<Rightarrow> 'img event list \<Rightarrow> nat" where
  "ready_transitions s [] = 0"
| "ready_transitions s (e # es) =
     (if \<not> isVideoReady s \<and> isVideoReady (step s e) then 1 else 0) +
     ready_transitions (step s e) es"

text \<open>The number of times the program, and the texture, have been released.\<close>

fun is_deleteProgram :: "'img gl_call \<Rightarrow> bool" where
  "is_deleteProgram (DeleteProgram p) = True"
| "is_deleteProgram _ = False"

fun is_deleteTexture :: "'img gl_call \<Rightarrow> bool" where
  "is_deleteTexture (DeleteTexture t) = True"
| "is_deleteTexture _ = False"

definition deleteProgram_count :: "'img view \<Rightarrow> nat" where
  "deleteProgram_count s = length (filter is_deleteProgram (glCalls s))"

definition deleteTexture_count :: "'img view \<Rightarrow> nat" where
  "deleteTexture_count s = length (filter is_deleteTexture (glCalls s))"

subsection \<open>Sample values for the worked examples\<close>

definition sample_video :: "nat \<Rightarrow> nat video" where
  "sample_video r = \<lparr>readyState = r, videoWidth = 640, videoHeight = 360, currentFrame = 0\<rparr>"

definition sample_gl :: webgl where
  "sample_gl = \<lparr>newProgram = 1, newTexture = Some 2, uniformLocation = (\<lambda>name. Some 3)\<rparr>"

definition sample_closure :: closure where
  "sample_closure =
     \<lparr>c_gl = Some sample_gl,
      c_ctx = \<lparr>program = 1, texture = Some 2, imageLocation = Some 3,
               keyColorLocation = Some 3, thresholdLocation = Some 3\<rparr>\<rparr>"

text \<open>A started loop: the instance after the video has reported that it can play.\<close>

definition sample_started :: "nat view" where
  "sample_started = run (mount True (Some sample_gl)) [CanPlay (sample_video 4)]"

subsection \<open>Invariants of executions\<close>

text \<open>
  What every state of an execution satisfies: the listener is registered only on a
  mounted instance that is not ready yet; a mounted instance whose render effect has
  returned no cleanup has a clock at 0 and no callback queued, and one whose effect
  has returned a cleanup is ready, with the memoised context and the effect's
  dependencies up to date.
\<close>

definition governor_inv :: "'img view \<Rightarrow> bool" where
  "governor_inv s \<longleftrightarrow>
     (canplayListener s \<longrightarrow> mounted s \<and> \<not> isVideoReady s) \<and>
     (mounted s \<longrightarrow>
        (case cleanupFn s of
           None \<Rightarrow> lastFrameTime s = 0 \<and> rafPending s = []
         | Some c \<Rightarrow> memoDep s \<and> isVideoReady s \<and> effectDeps s = (True, webGLContext s)))"

text \<open>
  The render loop has never been started: the effect has returned no cleanup, no
  callback is queued, and no animation frame has ever been requested.
\<close>

definition loop_never_started :: "'img view \<Rightarrow> bool" where
  "loop_never_started s \<longleftrightarrow>
     cleanupFn s = None \<and> rafPending s = [] \<and> rafNext s = 0 \<and> animationFrameId s = None"

text \<open>
  The surface has yielded no context and nothing has been done to the canvas: the
  memoised context is \<^verbatim>\<open>null\<close>, no call has been issued, and the canvas has kept
  its default size.
\<close>

definition context_failed :: "'img view \<Rightarrow> bool" where
  "context_failed s \<longleftrightarrow>
     getContext s = None \<and> webGLContext s = None \<and> glRef s = None \<and> glCalls s = [] \<and>
     canvasWidth s = 300 \<and> canvasHeight s = 150"


section \<open>Properties of the fragment stage\<close>




lemma round32_zero: "round32 0 = 0"
  by (simp add: round32_def)




































text \<open>
  C2. With the key colour (3, 255, 156)/255 and the threshold 0.3 that
  \<^verbatim>\<open>applyChromaKey\<close> binds, a pixel of the key colour comes out fully transparent
  (alpha 0, indeed transparent black), whatever its alpha was, and an opaque black
  pixel comes out unchanged.
\<close>

theorem keying_scenario:
  "alpha (fragment_main (\<lambda>_. Vec4 (3 / 255) (255 / 255) (156 / 255) a) uv keyColor threshold) = 0 \<and>
   fragment_main (\<lambda>_. Vec4 (3 / 255) (255 / 255) (156 / 255) a) uv keyColor threshold = Vec4 0 0 0 0 \<and>
   fragment_main (\<lambda>_. Vec4 0 0 0 1) uv keyColor threshold = Vec4 0 0 0 1"
proof -
  have "(1::real) \<le> sqrt (1986 / 1445)"
    by (rule real_le_rsqrt) simp
  then have far: "\<not> sqrt (1986 / 1445) * 10 < (3::real)"
    by linarith
  show ?thesis
    using far by (simp add: fragment_main_def texture2D_def keyColor_def threshold_def)
qed

text \<open>
  C10. The two formulations of the fragment stage in the evolutions of the
  component, the if/else one writing \<^verbatim>\<open>vec4(0.0, 0.0, 0.0, 0.0)\<close> and the ternary one
  writing \<^verbatim>\<open>vec4(0.0)\<close>, give the same output pixel for every sampled colour, key
  colour and threshold.
\<close>

theorem fragment_formulations_equal:
  "fragment_main u_image uv k t = fragment_main_ternary u_image uv k t"
  by (simp add: fragment_main_def fragment_main_ternary_def vec4_splat_def Let_def)


section \<open>Properties of the render loop and the view\<close>

lemma frameInterval_pos: "0 < frameInterval"
  by (simp add: frameInterval_def targetFPS_def)

lemma applyChromaKey_lastFrameTime:
  "lastFrameTime (applyChromaKey c t v s) =
     (if t - lastFrameTime s < frameInterval then lastFrameTime s else t)"
  by (simp add: applyChromaKey_def requestAnimationFrame_def upload_and_draw_def gl_do_def Let_def)

lemma applyChromaKey_glCalls:
  "glCalls (applyChromaKey c t v s) =
     glCalls s @
     (if \<not> t - lastFrameTime s < frameInterval \<and> videoRef s \<and> c_gl c \<noteq> None \<and>
         readyState v = HAVE_ENOUGH_DATA
      then [Viewport 0 0 (videoWidth v) (videoHeight v),
            BindTexture (texture (c_ctx c)),
            TexImage2D (currentFrame v),
            Uniform1i (imageLocation (c_ctx c)) 0,
            Uniform3f (keyColorLocation (c_ctx c)) (3 / 255) (255 / 255) (156 / 255),
            Uniform1f (thresholdLocation (c_ctx c)) 0.3,
            DrawArrays 0 4]
      else [])"
  by (simp add: applyChromaKey_def requestAnimationFrame_def upload_and_draw_def gl_do_def Let_def)

text \<open>The uniforms bound before each draw are the key colour and the threshold.\<close>

lemma upload_and_draw_uniforms:
  "glCalls (upload_and_draw c v s) =
     glCalls s @
     [Viewport 0 0 (videoWidth v) (videoHeight v),
      BindTexture (texture (c_ctx c)),
      TexImage2D (currentFrame v),
      Uniform1i (imageLocation (c_ctx c)) 0,
      (case keyColor of Vec3 r g b \<Rightarrow> Uniform3f (keyColorLocation (c_ctx c)) r g b),
      Uniform1f (thresholdLocation (c_ctx c)) threshold,
      DrawArrays 0 4]"
  by (simp add: upload_and_draw_def gl_do_def keyColor_def threshold_def)

lemma applyChromaKey_canvas:
  "t - lastFrameTime s < frameInterval \<Longrightarrow>
     canvasWidth (applyChromaKey c t v s) = canvasWidth s \<and>
     canvasHeight (applyChromaKey c t v s) = canvasHeight s"
  by (simp add: applyChromaKey_def requestAnimationFrame_def)

lemma applyChromaKey_fields:
  "videoRef (applyChromaKey c t v s) = videoRef s"
  "mounted (applyChromaKey c t v s) = mounted s"
  "getContext (applyChromaKey c t v s) = getContext s"
  "isVideoReady (applyChromaKey c t v s) = isVideoReady s"
  "canplayListener (applyChromaKey c t v s) = canplayListener s"
  "memoDep (applyChromaKey c t v s) = memoDep s"
  "webGLContext (applyChromaKey c t v s) = webGLContext s"
  "glRef (applyChromaKey c t v s) = glRef s"
  "effectDeps (applyChromaKey c t v s) = effectDeps s"
  "cleanupFn (applyChromaKey c t v s) = cleanupFn s"
  "animationFrameId (applyChromaKey c t v s) = Some (rafNext s)"
  "rafNext (applyChromaKey c t v s) = Suc (rafNext s)"
  "rafPending (applyChromaKey c t v s) = rafPending s @ [(rafNext s, c)]"
  by (simp_all add: applyChromaKey_def requestAnimationFrame_def upload_and_draw_def gl_do_def Let_def)

text \<open>Callbacks that all fail the rate check.\<close>

lemma fold_skip:
  "t - lastFrameTime s < frameInterval \<Longrightarrow>
   lastFrameTime (fold (\<lambda>(i, c). applyChromaKey c t v) ps s) = lastFrameTime s \<and>
   glCalls (fold (\<lambda>(i, c). applyChromaKey c t v) ps s) = glCalls s \<and>
   canvasWidth (fold (\<lambda>(i, c). applyChromaKey c t v) ps s) = canvasWidth s \<and>
   canvasHeight (fold (\<lambda>(i, c). applyChromaKey c t v) ps s) = canvasHeight s"
proof (induction ps arbitrary: s)
  case Nil
  then show ?case by simp
next
  case (Cons p ps)
  obtain i c where p: "p = (i, c)" by (cases p)
  let ?s1 = "applyChromaKey c t v s"
  have "t - lastFrameTime ?s1 < frameInterval"
    using Cons.prems by (simp add: applyChromaKey_lastFrameTime)
  from Cons.IH [OF this] show ?case
    using Cons.prems
    by (simp add: p applyChromaKey_lastFrameTime applyChromaKey_glCalls applyChromaKey_canvas)
qed

lemma animationFrame_skip:
  "t - lastFrameTime s < frameInterval \<Longrightarrow>
   lastFrameTime (animationFrame t v s) = lastFrameTime s \<and>
   glCalls (animationFrame t v s) = glCalls s \<and>
   canvasWidth (animationFrame t v s) = canvasWidth s \<and>
   canvasHeight (animationFrame t v s) = canvasHeight s"
  using fold_skip [of t "s\<lparr>rafPending := []\<rparr>" v "rafPending s"]
  by (simp add: animationFrame_def)

lemma animationFrame_idle:
  "rafPending s = [] \<Longrightarrow> animationFrame t v s = s"
  by (simp add: animationFrame_def)

lemma animationFrame_pass:
  assumes "rafPending s = (i, c) # ps" and "\<not> t - lastFrameTime s < frameInterval"
  shows "lastFrameTime (animationFrame t v s) = t"
    and "glCalls (animationFrame t v s) = glCalls (applyChromaKey c t v s)"
proof -
  let ?s1 = "applyChromaKey c t v (s\<lparr>rafPending := []\<rparr>)"
  have l1: "lastFrameTime ?s1 = t"
    using assms(2) by (simp add: applyChromaKey_lastFrameTime)
  then have "t - lastFrameTime ?s1 < frameInterval"
    using frameInterval_pos by simp
  from fold_skip [OF this, of v ps] l1
  show "lastFrameTime (animationFrame t v s) = t"
    and "glCalls (animationFrame t v s) = glCalls (applyChromaKey c t v s)"
    using assms(1) by (simp_all add: animationFrame_def applyChromaKey_glCalls)
qed

text \<open>The effect of one display refresh on the clock and on the draw count.\<close>

lemma animationFrame_clock:
  "lastFrameTime (animationFrame t v s) = lastFrameTime s \<or>
   lastFrameTime (animationFrame t v s) = t \<and> frameInterval \<le> t - lastFrameTime s"
proof (cases "t - lastFrameTime s < frameInterval")
  case True
  then show ?thesis by (simp add: animationFrame_skip)
next
  case False
  show ?thesis
  proof (cases "rafPending s")
    case Nil
    then show ?thesis by (simp add: animationFrame_idle)
  next
    case (Cons p ps)
    obtain i c where "p = (i, c)" by (cases p)
    with Cons False animationFrame_pass(1) [of s i c ps t v] show ?thesis by simp
  qed
qed

lemma animationFrame_drew:
  assumes "draw_count s < draw_count (animationFrame t v s)"
  shows "lastFrameTime (animationFrame t v s) = t \<and> frameInterval \<le> t - lastFrameTime s"
proof (cases "t - lastFrameTime s < frameInterval")
  case True
  with assms show ?thesis by (simp add: animationFrame_skip draw_count_def)
next
  case False
  show ?thesis
  proof (cases "rafPending s")
    case Nil
    with assms show ?thesis by (simp add: animationFrame_idle)
  next
    case (Cons p ps)
    obtain i c where "p = (i, c)" by (cases p)
    with Cons False animationFrame_pass(1) [of s i c ps t v] show ?thesis by simp
  qed
qed

lemma fold_fields:
  "mounted (fold (\<lambda>(i, c). applyChromaKey c t v) ps s) = mounted s \<and>
   videoRef (fold (\<lambda>(i, c). applyChromaKey c t v) ps s) = videoRef s \<and>
   getContext (fold (\<lambda>(i, c). applyChromaKey c t v) ps s) = getContext s \<and>
   isVideoReady (fold (\<lambda>(i, c). applyChromaKey c t v) ps s) = isVideoReady s \<and>
   canplayListener (fold (\<lambda>(i, c). applyChromaKey c t v) ps s) = canplayListener s \<and>
   memoDep (fold (\<lambda>(i, c). applyChromaKey c t v) ps s) = memoDep s \<and>
   webGLContext (fold (\<lambda>(i, c). applyChromaKey c t v) ps s) = webGLContext s \<and>
   glRef (fold (\<lambda>(i, c). applyChromaKey c t v) ps s) = glRef s \<and>
   effectDeps (fold (\<lambda>(i, c). applyChromaKey c t v) ps s) = effectDeps s \<and>
   cleanupFn (fold (\<lambda>(i, c). applyChromaKey c t v) ps s) = cleanupFn s"
proof (induction ps arbitrary: s)
  case Nil
  show ?case by simp
next
  case (Cons p ps)
  obtain i c where p: "p = (i, c)" by (cases p)
  show ?case
    using Cons.IH [of "applyChromaKey c t v s"]
    by (simp add: p applyChromaKey_fields)
qed


lemma animationFrame_fields:
  "mounted (animationFrame t v s) = mounted s"
  "videoRef (animationFrame t v s) = videoRef s"
  "getContext (animationFrame t v s) = getContext s"
  "isVideoReady (animationFrame t v s) = isVideoReady s"
  "canplayListener (animationFrame t v s) = canplayListener s"
  "memoDep (animationFrame t v s) = memoDep s"
  "webGLContext (animationFrame t v s) = webGLContext s"
  "glRef (animationFrame t v s) = glRef s"
  "effectDeps (animationFrame t v s) = effectDeps s"
  "cleanupFn (animationFrame t v s) = cleanupFn s"
  using fold_fields [of t v "rafPending s" "s\<lparr>rafPending := []\<rparr>"]
  by (simp_all add: animationFrame_def)

lemma draws_initWebGL_calls: "filter is_draw (initWebGL_calls gl) = []"
  by (simp add: initWebGL_calls_def)

lemma start_skips:
  "applyChromaKey c 0 v (s\<lparr>animationFrameId := None, lastFrameTime := 0\<rparr>) =
   requestAnimationFrame c (s\<lparr>animationFrameId := None, lastFrameTime := 0\<rparr>)"
  using frameInterval_pos by (simp add: applyChromaKey_def)


lemma useMemo_obs:
  "draw_count (useMemo_webGLContext s) = draw_count s"
  "lastFrameTime (useMemo_webGLContext s) = lastFrameTime s"
  "cleanupFn (useMemo_webGLContext s) = cleanupFn s"
  "isVideoReady (useMemo_webGLContext s) = isVideoReady s"
  by (simp_all add: useMemo_webGLContext_def initWebGL_def gl_do_def draw_count_def
      draws_initWebGL_calls split: option.splits)

lemma cancel_obs:
  "draw_count (cancel c s) = draw_count s"
  "lastFrameTime (cancel c s) = lastFrameTime s"
  "isVideoReady (cancel c s) = isVideoReady s"
  by (simp_all add: cancel_def cancelAnimationFrame_def gl_do_def draw_count_def Let_def
      split: option.splits)


lemma renderEffect_body_obs:
  "draw_count (renderEffect_body v s) = draw_count s"
  "lastFrameTime (renderEffect_body v s) = lastFrameTime s \<or> lastFrameTime (renderEffect_body v s) = 0"
  "isVideoReady (renderEffect_body v s) = isVideoReady s"
  by (simp_all add: renderEffect_body_def start_skips requestAnimationFrame_def draw_count_def
      Let_def split: option.splits)


lemma renderEffect_obs:
  "draw_count (renderEffect v s) = draw_count s"
  "lastFrameTime (renderEffect v s) = lastFrameTime s \<or> lastFrameTime (renderEffect v s) = 0"
  "isVideoReady (renderEffect v s) = isVideoReady s"
proof -
  let ?s1 = "case cleanupFn s of Some c \<Rightarrow> cancel c s | None \<Rightarrow> s"
  let ?s2 = "?s1\<lparr>effectDeps := (isVideoReady s, webGLContext s)\<rparr>"
  have s1: "draw_count ?s1 = draw_count s" "lastFrameTime ?s1 = lastFrameTime s"
    "isVideoReady ?s1 = isVideoReady s"
    by (simp_all add: cancel_obs split: option.splits)
  then have s2: "draw_count ?s2 = draw_count s" "lastFrameTime ?s2 = lastFrameTime s"
    "isVideoReady ?s2 = isVideoReady s"
    by (simp_all add: draw_count_def)
  have r: "renderEffect v s =
      (if effectDeps s = (isVideoReady s, webGLContext s) then s else renderEffect_body v ?s2)"
    by (simp add: renderEffect_def Let_def)
  show "draw_count (renderEffect v s) = draw_count s"
    using renderEffect_body_obs(1) [of v ?s2] s2 by (simp add: r)
  show "lastFrameTime (renderEffect v s) = lastFrameTime s \<or> lastFrameTime (renderEffect v s) = 0"
    using renderEffect_body_obs(2) [of v ?s2] s2 by (auto simp: r)
  show "isVideoReady (renderEffect v s) = isVideoReady s"
    using renderEffect_body_obs(3) [of v ?s2] s2 by (simp add: r)
qed

lemma rerender_obs:
  "draw_count (rerender v s) = draw_count s"
  "lastFrameTime (rerender v s) = lastFrameTime s \<or> lastFrameTime (rerender v s) = 0"
  "isVideoReady (rerender v s) = isVideoReady s"
  using renderEffect_obs [of v "useMemo_webGLContext s"]
  by (simp_all add: rerender_def useMemo_obs)

lemma rerender_noop:
  "memoDep s \<Longrightarrow> effectDeps s = (isVideoReady s, webGLContext s) \<Longrightarrow> rerender v s = s"
  by (simp add: rerender_def useMemo_webGLContext_def renderEffect_def)

lemma checkVideoReady_obs:
  "draw_count (checkVideoReady v s) = draw_count s"
  "lastFrameTime (checkVideoReady v s) = lastFrameTime s \<or> lastFrameTime (checkVideoReady v s) = 0"
  "isVideoReady s \<Longrightarrow> isVideoReady (checkVideoReady v s)"
  "2 \<le> readyState v \<Longrightarrow> isVideoReady (checkVideoReady v s)"
  using rerender_obs [of v "s\<lparr>isVideoReady := True, canplayListener := False\<rparr>"]
  by (auto simp: checkVideoReady_def draw_count_def Let_def)

lemma unmount_obs:
  "draw_count (unmount s) = draw_count s"
  "lastFrameTime (unmount s) = lastFrameTime s"
  "isVideoReady (unmount s) = isVideoReady s"
proof -
  let ?s1 = "case cleanupFn s of Some c \<Rightarrow> cancel c s | None \<Rightarrow> s"
  have s1: "draw_count ?s1 = draw_count s" "lastFrameTime ?s1 = lastFrameTime s"
    "isVideoReady ?s1 = isVideoReady s"
    by (simp_all add: cancel_obs split: option.splits)
  have u: "unmount s = ?s1\<lparr>mounted := False, canplayListener := False, cleanupFn := None\<rparr>"
    by (simp add: unmount_def Let_def)
  have "draw_count (unmount s) = draw_count ?s1"
    by (simp add: u draw_count_def)
  with s1 show "draw_count (unmount s) = draw_count s" by simp
  show "lastFrameTime (unmount s) = lastFrameTime s" using s1 by (simp add: u)
  show "isVideoReady (unmount s) = isVideoReady s" using s1 by (simp add: u)
qed

lemma step_draw_count:
  "tick_time e = None \<Longrightarrow> draw_count (step s e) = draw_count s"
  by (cases e) (simp_all add: rerender_obs checkVideoReady_obs unmount_obs)

lemma drew_is_tick: "drew s e \<Longrightarrow> \<exists>t v. e = AnimationFrame t v"
  using step_draw_count [of e s] by (cases e) (simp_all add: drew_def)

lemma step_ready: "isVideoReady s \<Longrightarrow> isVideoReady (step s e)"
  by (cases e) (simp_all add: rerender_obs checkVideoReady_obs unmount_obs animationFrame_fields)

lemma run_append: "run s (es @ es') = run (run s es) es'"
  by (induction es arbitrary: s) simp_all

lemma run_ready: "isVideoReady s \<Longrightarrow> isVideoReady (run s es)"
  by (induction es arbitrary: s) (simp_all add: step_ready)


lemma mount_inv: "governor_inv (mount hv surf)"
  by (simp add: governor_inv_def mount_def)

lemma rerender_inv:
  assumes "mounted s" "cleanupFn s = None" "lastFrameTime s = 0" "rafPending s = []"
    "\<not> canplayListener s \<or> \<not> isVideoReady s"
  shows "governor_inv (rerender v s)"
  using assms
  by (auto simp: governor_inv_def rerender_def useMemo_webGLContext_def initWebGL_def
      renderEffect_def renderEffect_body_def gl_do_def start_skips requestAnimationFrame_def
      Let_def split: option.splits)


lemma step_inv:
  assumes "governor_inv s"
  shows "governor_inv (step s e)"
proof (cases e)
  case (CanPlay v)
  show ?thesis
  proof (cases "canplayListener s \<and> 2 \<le> readyState v")
    case True
    let ?s1 = "s\<lparr>isVideoReady := True, canplayListener := False\<rparr>"
    from True assms have m: "mounted s" "\<not> isVideoReady s"
      by (auto simp: governor_inv_def)
    with assms have "cleanupFn s = None \<and> lastFrameTime s = 0 \<and> rafPending s = []"
      by (auto simp: governor_inv_def split: option.splits)
    then have "governor_inv (rerender v ?s1)"
      using m by (intro rerender_inv) simp_all
    then show ?thesis
      using True m by (simp add: CanPlay checkVideoReady_def Let_def)
  next
    case False
    then show ?thesis using assms by (auto simp: CanPlay checkVideoReady_def)
  qed
next
  case (Rerender v)
  show ?thesis
  proof (cases "mounted s")
    case True
    show ?thesis
    proof (cases "cleanupFn s")
      case None
      with True assms have "governor_inv (rerender v s)"
        by (intro rerender_inv) (auto simp: governor_inv_def)
      then show ?thesis using True by (simp add: Rerender)
    next
      case (Some c)
      with True assms have "rerender v s = s"
        by (intro rerender_noop) (auto simp: governor_inv_def)
      then show ?thesis using True assms by (simp add: Rerender)
    qed
  next
    case False
    then show ?thesis using assms by (simp add: Rerender)
  qed
next
  case (AnimationFrame t v)
  show ?thesis
  proof (cases "rafPending s")
    case Nil
    then show ?thesis using assms by (simp add: AnimationFrame animationFrame_idle)
  next
    case (Cons p ps)
    with assms show ?thesis
      by (auto simp: AnimationFrame governor_inv_def animationFrame_fields split: option.splits)
  qed
next
  case Unmount
  show ?thesis
  proof (cases "mounted s")
    case True
    have "\<not> mounted (unmount s)" "\<not> canplayListener (unmount s)"
      by (simp_all add: unmount_def Let_def)
    then show ?thesis using True by (simp add: Unmount governor_inv_def)
  next
    case False
    then show ?thesis using assms by (simp add: Unmount)
  qed
qed

lemma run_inv: "governor_inv s \<Longrightarrow> governor_inv (run s es)"
  by (induction es arbitrary: s) (simp_all add: step_inv)

lemma step_clock_mono:
  assumes "governor_inv s"
  shows "lastFrameTime s \<le> lastFrameTime (step s e)"
proof (cases e)
  case (CanPlay v)
  show ?thesis
  proof (cases "canplayListener s")
    case True
    with assms have "mounted s" "\<not> isVideoReady s" by (auto simp: governor_inv_def)
    with assms have "lastFrameTime s = 0"
      by (auto simp: governor_inv_def split: option.splits)
    with checkVideoReady_obs(2) [of v s] show ?thesis using True by (auto simp: CanPlay)
  next
    case False
    then show ?thesis by (simp add: CanPlay)
  qed
next
  case (Rerender v)
  show ?thesis
  proof (cases "mounted s")
    case True
    show ?thesis
    proof (cases "cleanupFn s")
      case None
      with True assms have "lastFrameTime s = 0" by (simp add: governor_inv_def)
      with rerender_obs(2) [of v s] show ?thesis using True by (auto simp: Rerender)
    next
      case (Some c)
      with True assms have "rerender v s = s"
        by (intro rerender_noop) (auto simp: governor_inv_def)
      then show ?thesis using True by (simp add: Rerender)
    qed
  next
    case False
    then show ?thesis by (simp add: Rerender)
  qed
next
  case (AnimationFrame t v)
  with animationFrame_clock [of t v s] frameInterval_pos show ?thesis by auto
next
  case Unmount
  then show ?thesis by (simp add: unmount_obs)
qed

lemma run_clock_mono: "governor_inv s \<Longrightarrow> lastFrameTime s \<le> lastFrameTime (run s es)"
proof (induction es arbitrary: s)
  case Nil
  show ?case by simp
next
  case (Cons e es)
  have "lastFrameTime s \<le> lastFrameTime (step s e)"
    using Cons.prems by (rule step_clock_mono)
  also have "\<dots> \<le> lastFrameTime (run (step s e) es)"
    using Cons.prems by (intro Cons.IH step_inv)
  finally show ?case by simp
qed

lemma drew_tick:
  assumes "drew s e"
  obtains t v where "e = AnimationFrame t v" "lastFrameTime (step s e) = t"
    "frameInterval \<le> t - lastFrameTime s"
proof -
  from drew_is_tick [OF assms] obtain t v where e: "e = AnimationFrame t v" by blast
  with assms have "draw_count s < draw_count (animationFrame t v s)" by (simp add: drew_def)
  from animationFrame_drew [OF this] e that show thesis by simp
qed

lemma run_take_split:
  assumes "i < j" "j \<le> length es"
  shows "run s (take j es) = run (step (run s (take i es)) (es ! i)) (drop (Suc i) (take j es))"
proof -
  have "i < length es" using assms by simp
  have "take j es = take (Suc i) (take j es) @ drop (Suc i) (take j es)"
    by (rule append_take_drop_id [symmetric])
  also have "take (Suc i) (take j es) = take (Suc i) es" using assms by (simp add: min_def)
  also have "take (Suc i) es = take i es @ [es ! i]"
    using \<open>i < length es\<close> by (simp add: take_Suc_conv_app_nth)
  finally have "take j es = (take i es @ [es ! i]) @ drop (Suc i) (take j es)" .
  then have "run s (take j es) = run s ((take i es @ [es ! i]) @ drop (Suc i) (take j es))"
    by (rule arg_cong)
  then show ?thesis by (simp only: run_append run.simps)
qed

lemma two_draws_apart:
  assumes inv: "governor_inv s" and ij: "i < j"
    and di: "draws_at s es i" and dj: "draws_at s es j"
  obtains t t' where "tick_time (es ! i) = Some t" "tick_time (es ! j) = Some t'"
    "frameInterval \<le> t' - t"
proof -
  let ?si = "run s (take i es)" and ?sj = "run s (take j es)"
  from di have i: "i < length es" "drew ?si (es ! i)" by (simp_all add: draws_at_def)
  from dj have j: "j < length es" "drew ?sj (es ! j)" by (simp_all add: draws_at_def)
  from i(2) obtain t v where ti: "es ! i = AnimationFrame t v"
    "lastFrameTime (step ?si (es ! i)) = t"
    by (rule drew_tick)
  from j(2) obtain t' v' where tj: "es ! j = AnimationFrame t' v'"
    "frameInterval \<le> t' - lastFrameTime ?sj"
    by (rule drew_tick)
  have "governor_inv (step ?si (es ! i))" using inv by (intro step_inv run_inv)
  then have "lastFrameTime (step ?si (es ! i)) \<le>
      lastFrameTime (run (step ?si (es ! i)) (drop (Suc i) (take j es)))"
    by (rule run_clock_mono)
  also have "\<dots> = lastFrameTime ?sj"
    using run_take_split [of i j es s] ij j(1) by simp
  finally have "t \<le> lastFrameTime ?sj" using ti(2) by simp
  with tj(2) have "frameInterval \<le> t' - t" by simp
  with ti(1) tj(1) that show thesis by simp
qed

lemmas model_defs = mount_def checkVideoReady_def rerender_def useMemo_webGLContext_def
  initWebGL_def renderEffect_def renderEffect_body_def applyChromaKey_def
  requestAnimationFrame_def cancelAnimationFrame_def upload_and_draw_def gl_do_def
  animationFrame_def unmount_def cancel_def frameInterval_def targetFPS_def
  HAVE_ENOUGH_DATA_def draw_count_def drew_def

text \<open>
  C3 (as the code has it). With \<^verbatim>\<open>targetFPS = 30\<close> the loop starts with its clock at 0.
  Given display refreshes at timestamps 0, 10, 20 and 40, each with a fully decoded
  frame available, upload and draw occur at the refresh with timestamp 40 and at no
  other: at timestamp 0 the elapsed time 0 - 0 is below the frame interval, so that
  refresh is skipped like those at 10 and 20.
\<close>

theorem governor_scenario:
  assumes "2 \<le> readyState v0"
    and "readyState v1 = HAVE_ENOUGH_DATA" and "readyState v2 = HAVE_ENOUGH_DATA"
    and "readyState v3 = HAVE_ENOUGH_DATA" and "readyState v4 = HAVE_ENOUGH_DATA"
  shows "draw_times (run (mount True (Some gl)) [CanPlay v0])
           [AnimationFrame 0 v1, AnimationFrame 10 v2, AnimationFrame 20 v3, AnimationFrame 40 v4]
         = [40]"
  using assms by (simp add: model_defs initWebGL_calls_def Let_def)

text \<open>
  The scenario on a sample instance.
\<close>

theorem governor_scenario_witness:
  "2 \<le> readyState (sample_video 4) \<and> readyState (sample_video 4) = HAVE_ENOUGH_DATA \<and>
   draw_times sample_started
     [AnimationFrame 0 (sample_video 4), AnimationFrame 10 (sample_video 4),
      AnimationFrame 20 (sample_video 4), AnimationFrame 40 (sample_video 4)] = [40]"
  using governor_scenario [of "sample_video 4" "sample_video 4" "sample_video 4"
      "sample_video 4" "sample_video 4" sample_gl]
  by (simp add: sample_started_def sample_video_def HAVE_ENOUGH_DATA_def)

text \<open>
  C3 as stated, with draws at timestamps 0 and 40, fails: the refresh at
  timestamp 0 does not draw.
\<close>

theorem governor_scenario_counterexample:
  "draw_times sample_started
     [AnimationFrame 0 (sample_video 4), AnimationFrame 10 (sample_video 4),
      AnimationFrame 20 (sample_video 4), AnimationFrame 40 (sample_video 4)] \<noteq> [0, 40] \<and>
   \<not> drew sample_started (AnimationFrame 0 (sample_video 4))"
  by (simp add: sample_started_def sample_video_def sample_gl_def model_defs
      initWebGL_calls_def Let_def)


text \<open>
  C5 (as the code has it). The stored timestamp is set to the current time by every
  run of \<^verbatim>\<open>applyChromaKey\<close> that passes the rate check, before the frame source is
  looked at and whether or not a frame is then drawn, and is left alone by every
  run that fails the rate check. So the elapsed time compared with the frame
  interval is the time since the last refresh that passed the rate check. A refresh
  that draws does set the clock to its timestamp.
\<close>

theorem clock_update:
  "lastFrameTime (applyChromaKey c t v s) =
     (if t - lastFrameTime s < frameInterval then lastFrameTime s else t) \<and>
   (rafPending s \<noteq> [] \<longrightarrow>
      lastFrameTime (step s (AnimationFrame t v)) =
        (if t - lastFrameTime s < frameInterval then lastFrameTime s else t)) \<and>
   (drew s (AnimationFrame t v) \<longrightarrow> lastFrameTime (step s (AnimationFrame t v)) = t)"
proof (intro conjI impI)
  show "lastFrameTime (applyChromaKey c t v s) =
     (if t - lastFrameTime s < frameInterval then lastFrameTime s else t)"
    by (rule applyChromaKey_lastFrameTime)
next
  assume "rafPending s \<noteq> []"
  then obtain i c' ps where p: "rafPending s = (i, c') # ps"
    by (cases "rafPending s") auto
  show "lastFrameTime (step s (AnimationFrame t v)) =
        (if t - lastFrameTime s < frameInterval then lastFrameTime s else t)"
    using animationFrame_skip [of t s v] animationFrame_pass(1) [OF p, of t v] by simp
next
  assume "drew s (AnimationFrame t v)"
  then show "lastFrameTime (step s (AnimationFrame t v)) = t"
    by (rule drew_tick) simp
qed

text \<open>
  On a started loop: a refresh at 40 ms without a fully decoded frame moves the
  clock to 40, one at 10 ms leaves it at 0, and one at 40 ms with a frame draws and
  moves it to 40.
\<close>

theorem clock_update_witness:
  "rafPending sample_started \<noteq> [] \<and>
   lastFrameTime (step sample_started (AnimationFrame 40 (sample_video 3))) = 40 \<and>
   lastFrameTime (step sample_started (AnimationFrame 10 (sample_video 4))) = 0 \<and>
   drew sample_started (AnimationFrame 40 (sample_video 4)) \<and>
   lastFrameTime (step sample_started (AnimationFrame 40 (sample_video 4))) = 40"
proof -
  have p: "rafPending sample_started \<noteq> []"
    and l: "lastFrameTime sample_started = 0"
    and d: "drew sample_started (AnimationFrame 40 (sample_video 4))"
    by (simp_all add: sample_started_def sample_video_def sample_gl_def model_defs
        initWebGL_calls_def Let_def)
  show ?thesis
    using p l d
      clock_update [of sample_closure 40 "sample_video 3" sample_started]
      clock_update [of sample_closure 10 "sample_video 4" sample_started]
      clock_update [of sample_closure 40 "sample_video 4" sample_started]
    by (simp add: frameInterval_def targetFPS_def)
qed

text \<open>
  C5 as stated fails: a refresh at 40 ms while the video lacks a fully decoded
  frame draws nothing and still moves the clock from 0 to 40, and the refresh at
  50 ms, which has a frame, is then skipped although nothing has been drawn yet.
\<close>

theorem clock_update_counterexample:
  "lastFrameTime sample_started = 0 \<and>
   \<not> drew sample_started (AnimationFrame 40 (sample_video 3)) \<and>
   lastFrameTime (step sample_started (AnimationFrame 40 (sample_video 3))) = 40 \<and>
   draw_times sample_started
     [AnimationFrame 40 (sample_video 3), AnimationFrame 50 (sample_video 4)] = []"
  by (simp add: sample_started_def sample_video_def sample_gl_def model_defs
      initWebGL_calls_def Let_def)

lemma cancel_calls:
  assumes "c_gl c = Some gl" "texture (c_ctx c) = Some tex"
  shows "glCalls (cancel c s) = glCalls s @ [DeleteProgram (program (c_ctx c)), DeleteTexture tex]"
    and "rafPending (cancel c s) = filter (\<lambda>(j, c'). Some j \<noteq> animationFrameId s) (rafPending s)"
    and "animationFrameId (cancel c s) = animationFrameId s"
    and "lastFrameTime (cancel c s) = lastFrameTime s"
  using assms by (simp_all add: cancel_def cancelAnimationFrame_def gl_do_def Let_def)

lemma cancel_funpow:
  assumes "c_gl c = Some gl" "texture (c_ctx c) = Some tex"
  shows "glCalls ((cancel c ^^ n) s) =
           glCalls s @ concat (replicate n [DeleteProgram (program (c_ctx c)), DeleteTexture tex]) \<and>
         animationFrameId ((cancel c ^^ n) s) = animationFrameId s \<and>
         lastFrameTime ((cancel c ^^ n) s) = lastFrameTime s \<and>
         rafPending ((cancel c ^^ n) s) =
           (if n = 0 then rafPending s
            else filter (\<lambda>(j, c'). Some j \<noteq> animationFrameId s) (rafPending s))"
proof (induction n)
  case 0
  show ?case by simp
next
  case (Suc n)
  have rep: "concat (replicate n [a, b]) @ [a, b] = [a, b] @ concat (replicate n [a, b])"
    for a b :: "'a gl_call"
    by (induction n) simp_all
  show ?case
    using Suc cancel_calls [OF assms, of "(cancel c ^^ n) s"]
    by (simp add: rep)
qed

lemma unmounted_fixed: "\<not> mounted s \<Longrightarrow> run s (replicate k Unmount) = s"
  by (induction k) simp_all

lemma unmount_calls:
  assumes "cleanupFn s = Some c"
  shows "glCalls (unmount s) = glCalls (cancel c s)"
    and "rafPending (unmount s) = rafPending (cancel c s)"
    and "\<not> mounted (unmount s)"
  using assms by (simp_all add: unmount_def)

text \<open>
  C8 (as the code has it). For a started loop, whose callback is queued under
  \<^verbatim>\<open>animationFrameId\<close> and whose context and texture are non-null, calling the cleanup
  function \<open>n \<ge> 1\<close> times leaves no callback queued, so that later display
  refreshes do nothing, and leaves the clock alone; each call issues
  \<^verbatim>\<open>deleteProgram\<close> and \<^verbatim>\<open>deleteTexture\<close> again, \<open>n\<close> times in all. No call can fail.
  The component itself calls the cleanup once, when it is unmounted: \<open>n\<close> unmount
  events in a row release the program and the texture once.
\<close>

theorem cancel_repeated:
  assumes "rafPending s = [(i, c)]" and "animationFrameId s = Some i"
    and "c_gl c = Some gl" and "texture (c_ctx c) = Some tex" and "1 \<le> n"
  shows "rafPending ((cancel c ^^ n) s) = [] \<and>
         step ((cancel c ^^ n) s) (AnimationFrame t v) = (cancel c ^^ n) s \<and>
         lastFrameTime ((cancel c ^^ n) s) = lastFrameTime s \<and>
         deleteProgram_count ((cancel c ^^ n) s) = deleteProgram_count s + n \<and>
         deleteTexture_count ((cancel c ^^ n) s) = deleteTexture_count s + n \<and>
         (mounted s \<and> cleanupFn s = Some c \<longrightarrow>
            rafPending (run s (replicate n Unmount)) = [] \<and>
            deleteProgram_count (run s (replicate n Unmount)) = deleteProgram_count s + 1 \<and>
            deleteTexture_count (run s (replicate n Unmount)) = deleteTexture_count s + 1)"
proof -
  have rep: "length (filter P (concat (replicate n xs))) = n * length (filter P xs)"
    for P and xs :: "'a gl_call list"
    by (induction n) simp_all
  from cancel_funpow [OF assms(3,4), of n s] assms(1,2,5)
  have p: "rafPending ((cancel c ^^ n) s) = []"
    and l: "lastFrameTime ((cancel c ^^ n) s) = lastFrameTime s"
    and g: "glCalls ((cancel c ^^ n) s) =
           glCalls s @ concat (replicate n [DeleteProgram (program (c_ctx c)), DeleteTexture tex])"
    by simp_all
  from p have "step ((cancel c ^^ n) s) (AnimationFrame t v) = (cancel c ^^ n) s"
    by (simp add: animationFrame_idle)
  with p l g have many: "rafPending ((cancel c ^^ n) s) = [] \<and>
         step ((cancel c ^^ n) s) (AnimationFrame t v) = (cancel c ^^ n) s \<and>
         lastFrameTime ((cancel c ^^ n) s) = lastFrameTime s \<and>
         deleteProgram_count ((cancel c ^^ n) s) = deleteProgram_count s + n \<and>
         deleteTexture_count ((cancel c ^^ n) s) = deleteTexture_count s + n"
    by (simp add: deleteProgram_count_def deleteTexture_count_def rep)
  have once: "rafPending (run s (replicate n Unmount)) = [] \<and>
      deleteProgram_count (run s (replicate n Unmount)) = deleteProgram_count s + 1 \<and>
      deleteTexture_count (run s (replicate n Unmount)) = deleteTexture_count s + 1"
    if m: "mounted s" and cl: "cleanupFn s = Some c"
  proof -
    from assms(5) obtain k where n: "n = Suc k" by (cases n) simp_all
    have "run s (replicate n Unmount) = run (unmount s) (replicate k Unmount)"
      using m by (simp add: n)
    also have "\<dots> = unmount s"
      using unmount_calls(3) [OF cl] by (rule unmounted_fixed)
    finally have r: "run s (replicate n Unmount) = unmount s" .
    show ?thesis
      using unmount_calls(1,2) [OF cl] cancel_calls(1,2) [OF assms(3,4), of s] assms(1,2)
      by (simp add: r deleteProgram_count_def deleteTexture_count_def)
  qed
  from many once show ?thesis by blast
qed

text \<open>
  The cleanup of a sample started loop, called three times, and the same instance
  unmounted three times.
\<close>

theorem cancel_repeated_witness:
  "rafPending sample_started = [(0, sample_closure)] \<and>
   animationFrameId sample_started = Some 0 \<and>
   mounted sample_started \<and>
   cleanupFn sample_started = Some sample_closure \<and>
   c_gl sample_closure = Some sample_gl \<and> texture (c_ctx sample_closure) = Some 2 \<and>
   rafPending ((cancel sample_closure ^^ 3) sample_started) = [] \<and>
   deleteProgram_count sample_started = 0 \<and>
   deleteProgram_count ((cancel sample_closure ^^ 3) sample_started) = 3 \<and>
   deleteTexture_count ((cancel sample_closure ^^ 3) sample_started) = 3 \<and>
   deleteProgram_count (run sample_started (replicate 3 Unmount)) = 1 \<and>
   deleteTexture_count (run sample_started (replicate 3 Unmount)) = 1"
proof -
  have h: "rafPending sample_started = [(0, sample_closure)]"
    "animationFrameId sample_started = Some 0"
    "cleanupFn sample_started = Some sample_closure"
    "c_gl sample_closure = Some sample_gl" "texture (c_ctx sample_closure) = Some 2"
    "deleteProgram_count sample_started = 0" "deleteTexture_count sample_started = 0"
    "mounted sample_started"
    by (simp_all add: sample_started_def sample_video_def sample_gl_def sample_closure_def
        model_defs initWebGL_calls_def Let_def deleteProgram_count_def deleteTexture_count_def)
  from cancel_repeated [OF h(1,2,4,5), of 3] h show ?thesis
    by (simp del: run.simps replicate.simps)
qed

text \<open>
  C8 as stated, with the resources released exactly once, fails: calling the
  cleanup twice issues each release call twice.
\<close>

theorem cancel_repeated_counterexample:
  "cleanupFn sample_started = Some sample_closure \<and>
   deleteProgram_count sample_started = 0 \<and>
   deleteTexture_count sample_started = 0 \<and>
   deleteProgram_count (cancel sample_closure (cancel sample_closure sample_started)) = 2 \<and>
   deleteTexture_count (cancel sample_closure (cancel sample_closure sample_started)) = 2"
  by (simp add: sample_started_def sample_video_def sample_gl_def sample_closure_def
      model_defs initWebGL_calls_def Let_def deleteProgram_count_def deleteTexture_count_def)

text \<open>
  C4. In every execution of an instance, among display refreshes whose timestamps
  are pairwise less than \<^verbatim>\<open>1000 / targetFPS\<close> milliseconds apart at most one uploads
  and draws; and a refresh skipped by the rate check leaves the clock, the contents
  of the frame texture and indeed the whole sequence of calls issued on the context
  unchanged.
\<close>

theorem rate_limit:
  "((\<forall>i\<in>G. \<forall>j\<in>G. ticks_within frameInterval es i j) \<longrightarrow>
      card {i \<in> G. draws_at (mount hv surf) es i} \<le> 1) \<and>
   (t - lastFrameTime s < frameInterval \<longrightarrow>
      lastFrameTime (step s (AnimationFrame t v)) = lastFrameTime s \<and>
      frameTexture (step s (AnimationFrame t v)) = frameTexture s \<and>
      glCalls (step s (AnimationFrame t v)) = glCalls s)"
proof (intro conjI impI)
  assume near: "\<forall>i\<in>G. \<forall>j\<in>G. ticks_within frameInterval es i j"
  let ?D = "{i \<in> G. draws_at (mount hv surf) es i}"
  have apart: False
    if "a \<in> ?D" "b \<in> ?D" "a < b" for a b
  proof -
    from that have da: "draws_at (mount hv surf) es a" and db: "draws_at (mount hv surf) es b"
      by simp_all
    from mount_inv that(3) da db obtain t t' where
      tt: "tick_time (es ! a) = Some t" "tick_time (es ! b) = Some t'" "frameInterval \<le> t' - t"
      by (rule two_draws_apart)
    from near that have "ticks_within frameInterval es a b" by simp
    with tt show False by (simp add: ticks_within_def abs_less_iff)
  qed
  have same: "a = b" if "a \<in> ?D" "b \<in> ?D" for a b
    using apart [of a b] apart [of b a] that by (cases a b rule: linorder_cases) auto
  have "?D \<subseteq> {..<length es}" by (auto simp: draws_at_def)
  then have "finite ?D" by (rule finite_subset) simp
  then have "card ?D \<le> Suc 0" using same by (simp add: card_le_Suc0_iff_eq)
  then show "card ?D \<le> 1" by simp
next
  assume skip: "t - lastFrameTime s < frameInterval"
  from animationFrame_skip [OF skip, of v]
  show "lastFrameTime (step s (AnimationFrame t v)) = lastFrameTime s"
    and "glCalls (step s (AnimationFrame t v)) = glCalls s"
    and "frameTexture (step s (AnimationFrame t v)) = frameTexture s"
    by (simp_all add: frameTexture_def)
qed


text \<open>
  Two refreshes 10 ms apart after the loop has started: the first draws, the second
  is skipped.
\<close>

theorem rate_limit_witness:
  "ticks_within frameInterval
     [CanPlay (sample_video 4), AnimationFrame 40 (sample_video 4),
      AnimationFrame 50 (sample_video 4)] 1 2 \<and>
   draws_at (mount True (Some sample_gl))
     [CanPlay (sample_video 4), AnimationFrame 40 (sample_video 4),
      AnimationFrame 50 (sample_video 4)] 1 \<and>
   card {i \<in> {1, 2}. draws_at (mount True (Some sample_gl))
     [CanPlay (sample_video 4), AnimationFrame 40 (sample_video 4),
      AnimationFrame 50 (sample_video 4)] i} \<le> 1 \<and>
   10 - lastFrameTime sample_started < frameInterval \<and>
   lastFrameTime (step sample_started (AnimationFrame 10 (sample_video 4))) =
     lastFrameTime sample_started \<and>
   frameTexture (step sample_started (AnimationFrame 10 (sample_video 4))) =
     frameTexture sample_started"
proof -
  let ?es = "[CanPlay (sample_video 4), AnimationFrame 40 (sample_video 4),
      AnimationFrame 50 (sample_video 4)]"
  have near: "\<forall>i\<in>{1, 2}. \<forall>j\<in>{1, 2}. ticks_within frameInterval ?es i j"
    by (simp add: ticks_within_def frameInterval_def targetFPS_def)
  have d: "draws_at (mount True (Some sample_gl)) ?es 1"
    by (simp add: draws_at_def sample_video_def sample_gl_def model_defs
        initWebGL_calls_def Let_def)
  have l: "10 - lastFrameTime sample_started < frameInterval"
    by (simp add: sample_started_def sample_video_def sample_gl_def model_defs
        initWebGL_calls_def Let_def)
  from rate_limit [of "{1, 2}" ?es True "Some sample_gl" 10 sample_started "sample_video 4"]
    near d l
  show ?thesis by simp
qed

lemma rerender_fields:
  "videoRef (rerender v s) = videoRef s"
  "mounted (rerender v s) = mounted s"
  "canplayListener (rerender v s) = canplayListener s"
  "getContext (rerender v s) = getContext s"
  by (auto simp: rerender_def useMemo_webGLContext_def initWebGL_def
      renderEffect_def renderEffect_body_def gl_do_def start_skips requestAnimationFrame_def
      cancel_def cancelAnimationFrame_def Let_def split: option.splits)

lemma step_gate:
  assumes "canplayListener s \<longleftrightarrow> videoRef s \<and> mounted s \<and> \<not> isVideoReady s"
  shows "canplayListener (step s e) \<longleftrightarrow>
         videoRef (step s e) \<and> mounted (step s e) \<and> \<not> isVideoReady (step s e)"
proof (cases e)
  case (CanPlay v)
  show ?thesis
    using assms rerender_fields [of v "s\<lparr>isVideoReady := True, canplayListener := False\<rparr>"]
      rerender_obs(3) [of v "s\<lparr>isVideoReady := True, canplayListener := False\<rparr>"]
    by (auto simp: CanPlay checkVideoReady_def Let_def)
next
  case (Rerender v)
  then show ?thesis using assms by (simp add: rerender_fields rerender_obs)
next
  case (AnimationFrame t v)
  then show ?thesis using assms by (simp add: animationFrame_fields)
next
  case Unmount
  have "\<not> mounted (unmount s)" "\<not> canplayListener (unmount s)"
    by (simp_all add: unmount_def Let_def)
  then show ?thesis using assms by (simp add: Unmount)
qed

lemma run_gate:
  "canplayListener s \<longleftrightarrow> videoRef s \<and> mounted s \<and> \<not> isVideoReady s \<Longrightarrow>
   canplayListener (run s es) \<longleftrightarrow>
     videoRef (run s es) \<and> mounted (run s es) \<and> \<not> isVideoReady (run s es)"
proof (induction es arbitrary: s)
  case Nil
  then show ?case by simp
next
  case (Cons e es)
  from Cons.IH [OF step_gate [OF Cons.prems]] show ?case by simp
qed

lemma step_videoRef: "videoRef (step s e) = videoRef s"
proof (cases e)
  case (CanPlay v)
  then show ?thesis
    using rerender_fields(1) [of v "s\<lparr>isVideoReady := True, canplayListener := False\<rparr>"]
    by (simp add: checkVideoReady_def Let_def)
next
  case Unmount
  have "videoRef (unmount s) = videoRef s"
    by (simp add: unmount_def cancel_def cancelAnimationFrame_def gl_do_def Let_def
        split: option.splits)
  then show ?thesis by (simp add: Unmount)
qed (simp_all add: rerender_fields animationFrame_fields)

lemma run_videoRef: "videoRef (run s es) = videoRef s"
  by (induction es arbitrary: s) (simp_all add: step_videoRef)

lemma ready_no_transitions: "isVideoReady s \<Longrightarrow> ready_transitions s es = 0"
  by (induction es arbitrary: s) (simp_all add: step_ready)

lemma ready_transitions_le: "ready_transitions s es \<le> 1"
proof (induction es arbitrary: s)
  case Nil
  show ?case by simp
next
  case (Cons e es)
  show ?case
  proof (cases "\<not> isVideoReady s \<and> isVideoReady (step s e)")
    case True
    then show ?thesis by (simp add: ready_no_transitions)
  next
    case False
    then show ?thesis using Cons.IH [of "step s e"] by auto
  qed
qed

text \<open>
  C6. In every execution of an instance \<^verbatim>\<open>isVideoReady\<close> turns true at most once and
  never turns false again; once it is true a further \<^verbatim>\<open>canplay\<close> signal changes
  nothing at all. On a mounted instance with a video element that is not ready yet,
  a signal at readiness level 2 or above makes it ready; a signal below that level
  changes nothing.
\<close>

theorem readiness_gate:
  "ready_transitions (mount hv surf) es \<le> 1 \<and>
   (isVideoReady (run (mount hv surf) es) \<longrightarrow>
      isVideoReady (run (mount hv surf) (es @ es')) \<and>
      step (run (mount hv surf) es) (CanPlay v) = run (mount hv surf) es) \<and>
   (mounted (run (mount True surf) es) \<and> \<not> isVideoReady (run (mount True surf) es) \<and>
    2 \<le> readyState v \<longrightarrow>
      isVideoReady (step (run (mount True surf) es) (CanPlay v))) \<and>
   (readyState v < 2 \<longrightarrow> step s (CanPlay v) = s)"
proof (intro conjI impI)
  show "ready_transitions (mount hv surf) es \<le> 1"
    by (rule ready_transitions_le)
next
  assume r: "isVideoReady (run (mount hv surf) es)"
  then show "isVideoReady (run (mount hv surf) (es @ es'))"
    by (simp add: run_append run_ready)
  have "governor_inv (run (mount hv surf) es)"
    by (intro run_inv mount_inv)
  with r have "\<not> canplayListener (run (mount hv surf) es)"
    by (auto simp: governor_inv_def)
  then show "step (run (mount hv surf) es) (CanPlay v) = run (mount hv surf) es"
    by simp
next
  let ?s = "run (mount True surf) es"
  assume a: "mounted ?s \<and> \<not> isVideoReady ?s \<and> 2 \<le> readyState v"
  have "canplayListener ?s \<longleftrightarrow> videoRef ?s \<and> mounted ?s \<and> \<not> isVideoReady ?s"
    by (rule run_gate) (simp add: mount_def)
  moreover have "videoRef ?s" by (simp add: run_videoRef mount_def)
  ultimately have "canplayListener ?s" using a by simp
  then show "isVideoReady (step ?s (CanPlay v))"
    using a by (simp add: checkVideoReady_obs)
next
  assume "readyState v < 2"
  then show "step s (CanPlay v) = s" by (simp add: checkVideoReady_def)
qed

text \<open>
  Two signals in succession: one transition, and the second signal is a no-op.
\<close>

theorem readiness_gate_witness:
  "isVideoReady (run (mount True (Some sample_gl)) [CanPlay (sample_video 4)]) \<and>
   isVideoReady (run (mount True (Some sample_gl))
     ([CanPlay (sample_video 4)] @ [CanPlay (sample_video 4), Unmount])) \<and>
   step (run (mount True (Some sample_gl)) [CanPlay (sample_video 4)]) (CanPlay (sample_video 4)) =
     run (mount True (Some sample_gl)) [CanPlay (sample_video 4)] \<and>
   ready_transitions (mount True (Some sample_gl))
     [CanPlay (sample_video 4), CanPlay (sample_video 4)] = 1 \<and>
   mounted (run (mount True (Some sample_gl)) [CanPlay (sample_video 1)]) \<and>
   \<not> isVideoReady (run (mount True (Some sample_gl)) [CanPlay (sample_video 1)]) \<and>
   2 \<le> readyState (sample_video 4) \<and>
   isVideoReady (step (run (mount True (Some sample_gl)) [CanPlay (sample_video 1)])
     (CanPlay (sample_video 4))) \<and>
   readyState (sample_video 1) < 2 \<and>
   step (mount True (Some sample_gl)) (CanPlay (sample_video 1)) = mount True (Some sample_gl)"
proof -
  have r: "isVideoReady (run (mount True (Some sample_gl)) [CanPlay (sample_video 4)])"
    by (simp add: sample_video_def sample_gl_def model_defs initWebGL_calls_def Let_def)
  have n: "ready_transitions (mount True (Some sample_gl))
     [CanPlay (sample_video 4), CanPlay (sample_video 4)] = 1"
    by (simp add: sample_video_def sample_gl_def model_defs initWebGL_calls_def Let_def)
  have m: "mounted (run (mount True (Some sample_gl)) [CanPlay (sample_video 1)])"
    "\<not> isVideoReady (run (mount True (Some sample_gl)) [CanPlay (sample_video 1)])"
    "2 \<le> readyState (sample_video 4)" "readyState (sample_video 1) < 2"
    by (simp_all add: sample_video_def model_defs)
  from r n m
    readiness_gate [where hv = True and surf = "Some sample_gl" and v = "sample_video 4"
      and es = "[CanPlay (sample_video 4)]" and es' = "[CanPlay (sample_video 4), Unmount]"
      and s = "mount True (Some sample_gl)"]
    readiness_gate [where hv = True and surf = "Some sample_gl" and v = "sample_video 4"
      and es = "[CanPlay (sample_video 1)]" and es' = "[]"
      and s = "mount True (Some sample_gl)"]
    readiness_gate [where hv = True and surf = "Some sample_gl" and v = "sample_video 1"
      and es = "[]" and es' = "[]" and s = "mount True (Some sample_gl) :: nat view"]
  show ?thesis by (simp del: run.simps step.simps)
qed

lemma rerender_not_ready:
  assumes "\<not> isVideoReady s" "cleanupFn s = None"
  shows "cleanupFn (rerender v s) = None" "rafPending (rerender v s) = rafPending s"
    "rafNext (rerender v s) = rafNext s" "animationFrameId (rerender v s) = animationFrameId s"
  using assms
  by (auto simp: rerender_def useMemo_webGLContext_def initWebGL_def
      renderEffect_def renderEffect_body_def gl_do_def Let_def split: option.splits)

lemma unmount_idle:
  assumes "cleanupFn s = None"
  shows "cleanupFn (unmount s) = None" "rafPending (unmount s) = rafPending s"
    "rafNext (unmount s) = rafNext s" "animationFrameId (unmount s) = animationFrameId s"
    "glCalls (unmount s) = glCalls s" "webGLContext (unmount s) = webGLContext s"
    "getContext (unmount s) = getContext s" "glRef (unmount s) = glRef s"
    "canvasWidth (unmount s) = canvasWidth s" "canvasHeight (unmount s) = canvasHeight s"
  using assms by (simp_all add: unmount_def)

lemma step_not_ready:
  assumes "\<not> isVideoReady (step s e)" "loop_never_started s" "draw_count s = 0"
  shows "loop_never_started (step s e) \<and> draw_count (step s e) = 0"
proof (cases e)
  case (CanPlay v)
  have "step s e = s"
  proof (rule ccontr)
    assume "step s e \<noteq> s"
    then have "canplayListener s" "2 \<le> readyState v"
      by (auto simp: CanPlay checkVideoReady_def split: if_splits)
    then have "isVideoReady (step s e)" by (simp add: CanPlay checkVideoReady_obs)
    with assms(1) show False by simp
  qed
  with assms show ?thesis by simp
next
  case (Rerender v)
  show ?thesis
  proof (cases "mounted s")
    case True
    with assms(1) have "\<not> isVideoReady s" by (simp add: Rerender rerender_obs)
    with assms(2,3) True show ?thesis
      by (simp add: Rerender loop_never_started_def rerender_not_ready rerender_obs)
  next
    case False
    with assms show ?thesis by (simp add: Rerender)
  qed
next
  case (AnimationFrame t v)
  with assms show ?thesis by (simp add: loop_never_started_def animationFrame_idle)
next
  case Unmount
  with assms show ?thesis
    by (simp add: loop_never_started_def unmount_idle unmount_obs)
qed

lemma run_snoc: "run s (es @ [e]) = step (run s es) e"
  by (simp add: run_append)

lemma not_ready_idle:
  "\<not> isVideoReady (run (mount hv surf) es) \<Longrightarrow>
   loop_never_started (run (mount hv surf) es) \<and> draw_count (run (mount hv surf) es) = 0"
proof (induction es rule: rev_induct)
  case Nil
  show ?case by (simp add: loop_never_started_def mount_def draw_count_def)
next
  case (snoc e es)
  let ?s = "run (mount hv surf) es"
  from snoc.prems have n: "\<not> isVideoReady (step ?s e)" by (simp add: run_snoc)
  then have "\<not> isVideoReady ?s" using step_ready [of ?s e] by blast
  from snoc.IH [OF this] step_not_ready [OF n] show ?case by (simp add: run_snoc)
qed

text \<open>
  C7. As long as \<^verbatim>\<open>isVideoReady\<close> is false in an execution, the render loop has never
  been started and no draw call has been issued, whatever display refreshes and
  other events have occurred. A display refresh that does anything at all finds
  \<^verbatim>\<open>isVideoReady\<close> true already, and the body of the render effect, which makes the
  first call of \<^verbatim>\<open>applyChromaKey\<close>, requests no frame and issues no call when it is
  false.
\<close>

theorem no_render_before_ready:
  "(\<not> isVideoReady (run (mount hv surf) es) \<longrightarrow>
      loop_never_started (run (mount hv surf) es) \<and> draw_count (run (mount hv surf) es) = 0) \<and>
   (i < length es \<and> tick_time (es ! i) \<noteq> None \<and>
    step (run (mount hv surf) (take i es)) (es ! i) \<noteq> run (mount hv surf) (take i es) \<longrightarrow>
      isVideoReady (run (mount hv surf) (take i es))) \<and>
   (\<not> isVideoReady s \<longrightarrow>
      rafNext (renderEffect_body v s) = rafNext s \<and>
      rafPending (renderEffect_body v s) = rafPending s \<and>
      glCalls (renderEffect_body v s) = glCalls s)"
proof (intro conjI impI)
  assume "\<not> isVideoReady (run (mount hv surf) es)"
  then show "loop_never_started (run (mount hv surf) es)"
    and "draw_count (run (mount hv surf) es) = 0"
    using not_ready_idle by blast+
next
  let ?s = "run (mount hv surf) (take i es)"
  assume a: "i < length es \<and> tick_time (es ! i) \<noteq> None \<and> step ?s (es ! i) \<noteq> ?s"
  then obtain t v where e: "es ! i = AnimationFrame t v"
    by (cases "es ! i") auto
  show "isVideoReady ?s"
  proof (rule ccontr)
    assume "\<not> isVideoReady ?s"
    then have "loop_never_started ?s" using not_ready_idle by blast
    then have "step ?s (es ! i) = ?s"
      by (simp add: e loop_never_started_def animationFrame_idle)
    with a show False by simp
  qed
next
  assume "\<not> isVideoReady s"
  then show "rafNext (renderEffect_body v s) = rafNext s"
    and "rafPending (renderEffect_body v s) = rafPending s"
    and "glCalls (renderEffect_body v s) = glCalls s"
    by (simp_all add: renderEffect_body_def split: option.splits)
qed

text \<open>
  Refreshes before any adequate signal draw nothing; the refresh after the signal
  runs the callback and finds the instance ready.
\<close>

theorem no_render_before_ready_witness:
  "\<not> isVideoReady (run (mount True (Some sample_gl))
      [AnimationFrame 40 (sample_video 4), Rerender (sample_video 4),
       CanPlay (sample_video 1), AnimationFrame 80 (sample_video 4)]) \<and>
   draw_count (run (mount True (Some sample_gl))
      [AnimationFrame 40 (sample_video 4), Rerender (sample_video 4),
       CanPlay (sample_video 1), AnimationFrame 80 (sample_video 4)]) = 0 \<and>
   tick_time ([CanPlay (sample_video 4), AnimationFrame 40 (sample_video 4)] ! 1) \<noteq> None \<and>
   step (run (mount True (Some sample_gl))
          (take 1 [CanPlay (sample_video 4), AnimationFrame 40 (sample_video 4)]))
        ([CanPlay (sample_video 4), AnimationFrame 40 (sample_video 4)] ! 1) \<noteq>
     run (mount True (Some sample_gl))
          (take 1 [CanPlay (sample_video 4), AnimationFrame 40 (sample_video 4)]) \<and>
   isVideoReady (run (mount True (Some sample_gl))
          (take 1 [CanPlay (sample_video 4), AnimationFrame 40 (sample_video 4)])) \<and>
   \<not> isVideoReady (mount True (Some sample_gl) :: nat view) \<and>
   rafNext (renderEffect_body (sample_video 4) (mount True (Some sample_gl))) = 0"
proof -
  let ?es = "[AnimationFrame 40 (sample_video 4), Rerender (sample_video 4),
       CanPlay (sample_video 1), AnimationFrame 80 (sample_video 4)]"
  let ?es' = "[CanPlay (sample_video 4), AnimationFrame 40 (sample_video 4)]"
  have n: "\<not> isVideoReady (run (mount True (Some sample_gl)) ?es)"
    by (simp add: sample_video_def sample_gl_def model_defs initWebGL_calls_def Let_def)
  have c: "rafNext (step (run (mount True (Some sample_gl)) (take 1 ?es')) (?es' ! 1)) \<noteq>
      rafNext (run (mount True (Some sample_gl)) (take 1 ?es'))"
    by (simp add: sample_video_def sample_gl_def model_defs initWebGL_calls_def Let_def)
  then have c': "step (run (mount True (Some sample_gl)) (take 1 ?es')) (?es' ! 1) \<noteq>
      run (mount True (Some sample_gl)) (take 1 ?es')"
    by (rule contrapos_nn) (rule arg_cong)
  have t: "tick_time (?es' ! 1) \<noteq> None" "(1::nat) < length ?es'" by simp_all
  have m: "\<not> isVideoReady (mount True (Some sample_gl) :: nat view)"
    "rafNext (mount True (Some sample_gl) :: nat view) = 0"
    by (simp_all add: mount_def)
  from n c' t m
    no_render_before_ready [where hv = True and surf = "Some sample_gl" and es = ?es
      and i = 0 and s = "mount True (Some sample_gl) :: nat view" and v = "sample_video 4"]
    no_render_before_ready [where hv = True and surf = "Some sample_gl" and es = ?es'
      and i = 1 and s = "mount True (Some sample_gl) :: nat view" and v = "sample_video 4"]
  show ?thesis by (simp del: run.simps step.simps take_Cons_numeral nth_Cons_numeral take_Suc_Cons)
qed

lemma rerender_context_failed:
  assumes "context_failed s" "loop_never_started s"
  shows "context_failed (rerender v s) \<and> loop_never_started (rerender v s)"
  using assms
  by (auto simp: context_failed_def loop_never_started_def rerender_def
      useMemo_webGLContext_def renderEffect_def renderEffect_body_def Let_def
      split: option.splits)

lemma step_context_failed:
  assumes "context_failed s" "loop_never_started s"
  shows "context_failed (step s e) \<and> loop_never_started (step s e)"
proof (cases e)
  case (CanPlay v)
  have f: "context_failed (s\<lparr>isVideoReady := True, canplayListener := False\<rparr>)"
    "loop_never_started (s\<lparr>isVideoReady := True, canplayListener := False\<rparr>)"
    using assms by (simp_all add: context_failed_def loop_never_started_def)
  show ?thesis
    using assms f rerender_context_failed [OF f, of v]
    by (simp add: CanPlay checkVideoReady_def Let_def)
next
  case (Rerender v)
  with assms rerender_context_failed [OF assms, of v] show ?thesis by simp
next
  case (AnimationFrame t v)
  with assms show ?thesis by (simp add: loop_never_started_def animationFrame_idle)
next
  case Unmount
  with assms show ?thesis
    by (simp add: loop_never_started_def context_failed_def unmount_idle)
qed

lemma run_context_failed:
  "context_failed s \<Longrightarrow> loop_never_started s \<Longrightarrow>
   context_failed (run s es) \<and> loop_never_started (run s es)"
proof (induction es arbitrary: s)
  case Nil
  then show ?case by simp
next
  case (Cons e es)
  from step_context_failed [OF Cons.prems, of e] Cons.IH [of "step s e"]
  show ?case by simp
qed

text \<open>
  C9. When the surface yields no context, the memoised initialisation gives
  \<^verbatim>\<open>null\<close> and issues no call. In every execution on such a surface the context stays
  \<^verbatim>\<open>null\<close>, the render loop is never started, and nothing is ever issued on the
  canvas, which the view keeps rendering empty. Every event is handled: the model
  has no failing branch on this path, as the code has none.
\<close>

theorem context_failure:
  "(getContext s = None \<and> \<not> memoDep s \<longrightarrow>
      webGLContext (useMemo_webGLContext s) = None \<and>
      glCalls (useMemo_webGLContext s) = glCalls s) \<and>
   webGLContext (run (mount hv None) es) = None \<and>
   loop_never_started (run (mount hv None) es) \<and>
   glCalls (run (mount hv None) es) = [] \<and>
   draw_count (run (mount hv None) es) = 0"
proof -
  have "context_failed (mount hv None)" "loop_never_started (mount hv None)"
    by (simp_all add: context_failed_def loop_never_started_def mount_def)
  from run_context_failed [OF this, of es]
  have "webGLContext (run (mount hv None) es) = None \<and>
      loop_never_started (run (mount hv None) es) \<and>
      glCalls (run (mount hv None) es) = [] \<and>
      draw_count (run (mount hv None) es) = 0"
    by (simp add: context_failed_def draw_count_def)
  moreover have "getContext s = None \<and> \<not> memoDep s \<longrightarrow>
      webGLContext (useMemo_webGLContext s) = None \<and>
      glCalls (useMemo_webGLContext s) = glCalls s"
    by (simp add: useMemo_webGLContext_def)
  ultimately show ?thesis by blast
qed

text \<open>
  A surface without context: the video becomes ready, and still no loop runs.
\<close>

theorem context_failure_witness:
  "getContext (mount True None :: nat view) = None \<and>
   \<not> memoDep (mount True None :: nat view) \<and>
   webGLContext (useMemo_webGLContext (mount True None :: nat view)) = None \<and>
   isVideoReady (run (mount True None)
     [CanPlay (sample_video 4), AnimationFrame 40 (sample_video 4)]) \<and>
   loop_never_started (run (mount True None)
     [CanPlay (sample_video 4), AnimationFrame 40 (sample_video 4)]) \<and>
   glCalls (run (mount True None)
     [CanPlay (sample_video 4), AnimationFrame 40 (sample_video 4)]) = []"
proof -
  have m: "getContext (mount True None :: nat view) = None"
    "\<not> memoDep (mount True None :: nat view)"
    by (simp_all add: mount_def)
  have r: "isVideoReady (run (mount True None)
     [CanPlay (sample_video 4), AnimationFrame 40 (sample_video 4)])"
    by (simp add: sample_video_def model_defs Let_def)
  from m r
    context_failure [where s = "mount True None :: nat view" and hv = True
      and es = "[CanPlay (sample_video 4), AnimationFrame 40 (sample_video 4)]"]
  show ?thesis by (simp del: run.simps step.simps)
qed

end
